theory Spec2Isabelle
  imports Complex_Main "HOL-Library.Word" "HOL-Library.AList"
begin

section \<open>The typing-session input engine of \<^verbatim>\<open>src/components/TypingPractice.tsx\<close>\<close>

subsection \<open>JavaScript strings\<close>

text \<open>
  A JavaScript string is a sequence of UTF-16 code units. \<^verbatim>\<open>content[pos]\<close> and
  \<^verbatim>\<open>content.length\<close> work on code units, whereas \<^verbatim>\<open>for (const rawCh of text)\<close>
  iterates over code points: a high surrogate directly followed by a low surrogate is
  delivered as one two-unit string, every other unit as a one-unit string.
\<close>

type_synonym code_unit = "16 word"
type_synonym jsstring = "code_unit list"

abbreviation TAB :: code_unit where "TAB \<equiv> 0x09"
abbreviation LF :: code_unit where "LF \<equiv> 0x0A"
abbreviation CR :: code_unit where "CR \<equiv> 0x0D"
abbreviation SP :: code_unit where "SP \<equiv> 0x20"

definition js :: "string \<Rightarrow> jsstring" where
  \<comment> \<open>an ASCII literal as a JavaScript string\<close>
  "js s = map of_char s"

definition is_high_surrogate :: "code_unit \<Rightarrow> bool" where
  "is_high_surrogate u = (0xD800 \<le> u \<and> u \<le> 0xDBFF)"

definition is_low_surrogate :: "code_unit \<Rightarrow> bool" where
  "is_low_surrogate u = (0xDC00 \<le> u \<and> u \<le> 0xDFFF)"

fun code_points :: "jsstring \<Rightarrow> jsstring list" where
  \<comment> \<open>the string iterator behind \<^verbatim>\<open>for ... of\<close>\<close>
  "code_points [] = []"
| "code_points [u] = [[u]]"
| "code_points (u # v # rest) =
     (if is_high_surrogate u \<and> is_low_surrogate v
      then [u, v] # code_points rest
      else [u] # code_points (v # rest))"

definition js_index :: "jsstring \<Rightarrow> int \<Rightarrow> jsstring option" where
  \<comment> \<open>\<^verbatim>\<open>content[i]\<close>: a one-unit string, or \<^verbatim>\<open>undefined\<close> (\<open>None\<close>) out of range\<close>
  "js_index content i =
     (if 0 \<le> i \<and> i < int (length content) then Some [content ! nat i] else None)"

definition is_trim_space :: "code_unit \<Rightarrow> bool" where
  \<comment> \<open>the WhiteSpace and LineTerminator code points removed by \<^verbatim>\<open>String.prototype.trim\<close>\<close>
  "is_trim_space u =
     (u = 0x09 \<or> u = 0x0A \<or> u = 0x0B \<or> u = 0x0C \<or> u = 0x0D \<or> u = 0x20 \<or> u = 0xA0
      \<or> u = 0x1680 \<or> (0x2000 \<le> u \<and> u \<le> 0x200A) \<or> u = 0x2028 \<or> u = 0x2029
      \<or> u = 0x202F \<or> u = 0x205F \<or> u = 0x3000 \<or> u = 0xFEFF)"

definition js_trim :: "jsstring \<Rightarrow> jsstring" where
  "js_trim s = rev (dropWhile is_trim_space (rev (dropWhile is_trim_space s)))"

subsection \<open>Component state\<close>

text \<open>
  \<^verbatim>\<open>typedMap\<close> is a JavaScript \<^verbatim>\<open>Map<number, string>\<close>: an insertion-ordered
  association list with distinct keys. \<^verbatim>\<open>set\<close> replaces the value of a present key in
  place and appends an absent one (\<^const>\<open>AList.update\<close>), \<^verbatim>\<open>delete\<close> removes the entry
  (\<^const>\<open>AList.delete\<close>), \<^verbatim>\<open>size\<close> is the length, \<^verbatim>\<open>has\<close>/\<^verbatim>\<open>get\<close> are
  \<^const>\<open>map_of\<close>.

  A call scheduled with \<^verbatim>\<open>setTimeout\<close> closes over the \<^verbatim>\<open>processInput\<close> of the render
  in which it was scheduled; \<open>timers\<close> keeps, for each pending call, its argument and the
  \<^verbatim>\<open>currentPosition\<close>, \<^verbatim>\<open>typedMap\<close> and \<^verbatim>\<open>isStarted\<close> of that render.
\<close>

type_synonym typed_map = "(int \<times> jsstring) list"

record state =
  currentPosition :: int
  typedMap :: typed_map
  isStarted :: bool
  startTime :: int
  wpm :: int
  accuracy :: int
  errors :: int
  isComposing :: bool
  compositionBuffer :: jsstring
  timers :: "(jsstring \<times> int \<times> typed_map \<times> bool) list"

definition initial :: state where
  \<comment> \<open>the \<^verbatim>\<open>useState\<close>/\<^verbatim>\<open>useRef\<close> initial values\<close>
  "initial = \<lparr> currentPosition = 0, typedMap = [], isStarted = False, startTime = 0,
               wpm = 0, accuracy = 100, errors = 0,
               isComposing = False, compositionBuffer = [], timers = [] \<rparr>"

subsection \<open>\<^verbatim>\<open>processInput\<close>\<close>

fun processLoop :: "jsstring \<Rightarrow> int \<Rightarrow> typed_map \<Rightarrow> jsstring list \<Rightarrow> int \<times> typed_map" where
  \<comment> \<open>the \<^verbatim>\<open>for (const rawCh of text)\<close> loop over \<^verbatim>\<open>pos\<close> and \<^verbatim>\<open>next\<close>\<close>
  "processLoop content pos next [] = (pos, next)"
| "processLoop content pos next (rawCh # rest) =
     (if pos \<ge> int (length content) then (pos, next)
      else
        let srcCh = js_index content pos;
            ch = (if rawCh = [CR] then [] else rawCh)
        in if ch = [] then processLoop content pos next rest
           else if (ch = [SP] \<or> ch = [LF] \<or> ch = [TAB]) \<and> srcCh \<noteq> Some ch
                then processLoop content pos next rest
           else processLoop content (pos + 1) (AList.update pos ch next) rest)"

definition processInputFrom ::
  "jsstring \<Rightarrow> int \<Rightarrow> jsstring \<Rightarrow> int \<Rightarrow> typed_map \<Rightarrow> bool \<Rightarrow> state \<Rightarrow> state" where
  \<comment> \<open>\<^verbatim>\<open>processInput(text)\<close> of the render whose \<^verbatim>\<open>currentPosition\<close>, \<^verbatim>\<open>typedMap\<close> and
      \<^verbatim>\<open>isStarted\<close> are \<open>cpos\<close>, \<open>cmap\<close> and \<open>cstarted\<close>, run at time \<open>now\<close>\<close>
  "processInputFrom content now text cpos cmap cstarted s =
     (if text = [] then s
      else
        let s1 = (if \<not> cstarted then s\<lparr>isStarted := True, startTime := now\<rparr> else s);
            (pos, next) = processLoop content cpos cmap (code_points text)
        in s1\<lparr>typedMap := next, currentPosition := pos\<rparr>)"

definition processInput :: "jsstring \<Rightarrow> int \<Rightarrow> jsstring \<Rightarrow> state \<Rightarrow> state" where
  \<comment> \<open>\<^verbatim>\<open>processInput(text)\<close> called from a handler of the current render\<close>
  "processInput content now text s =
     processInputFrom content now text (currentPosition s) (typedMap s) (isStarted s) s"

subsection \<open>Event handlers\<close>

datatype key = Backspace | Delete | ArrowLeft | ArrowRight | Home | End | OtherKey

definition handleKeyDown :: "jsstring \<Rightarrow> key \<Rightarrow> state \<Rightarrow> state" where
  "handleKeyDown content k s =
     (if isComposing s then s
      else case k of
        Backspace \<Rightarrow>
          (if currentPosition s > 0
           then let np = currentPosition s - 1
                in s\<lparr>typedMap := AList.delete np (typedMap s), currentPosition := np\<rparr>
           else s)
      | Delete \<Rightarrow>
          (if currentPosition s < int (length content)
           then s\<lparr>typedMap := AList.delete (currentPosition s) (typedMap s)\<rparr>
           else s)
      | ArrowLeft \<Rightarrow>
          (if currentPosition s > 0 then s\<lparr>currentPosition := currentPosition s - 1\<rparr> else s)
      | ArrowRight \<Rightarrow>
          (if currentPosition s < int (length content)
           then s\<lparr>currentPosition := currentPosition s + 1\<rparr> else s)
      | Home \<Rightarrow> s\<lparr>currentPosition := 0\<rparr>
      | End \<Rightarrow> s\<lparr>currentPosition := int (length content)\<rparr>
      | OtherKey \<Rightarrow> s)"

text \<open>
  The target of a click is either one of the \<^verbatim>\<open>remaining-char\<close> spans, carrying its
  \<^verbatim>\<open>data-index\<close>, or some other element. \<^verbatim>\<open>getDisplayText\<close> renders one such span for
  every index \<open>0 \<le> i < content.length\<close> and no other.
\<close>

datatype click_target = RemainingChar int | OtherElement

definition handleClick :: "click_target \<Rightarrow> state \<Rightarrow> state" where
  "handleClick target s =
     (case target of
        RemainingChar index \<Rightarrow> s\<lparr>currentPosition := index\<rparr>
      | OtherElement \<Rightarrow> s)"

definition rendered_target :: "jsstring \<Rightarrow> click_target \<Rightarrow> bool" where
  "rendered_target content target =
     (case target of
        RemainingChar index \<Rightarrow> 0 \<le> index \<and> index < int (length content)
      | OtherElement \<Rightarrow> True)"

definition handleCompositionStart :: "state \<Rightarrow> state" where
  "handleCompositionStart s = s\<lparr>isComposing := True, compositionBuffer := []\<rparr>"

definition handleCompositionUpdate :: "jsstring \<Rightarrow> state \<Rightarrow> state" where
  "handleCompositionUpdate data s = s\<lparr>compositionBuffer := data\<rparr>"

definition handleCompositionEnd :: "jsstring \<Rightarrow> state \<Rightarrow> state" where
  \<comment> \<open>the call of \<^verbatim>\<open>processInput(e.data)\<close> is deferred by \<^verbatim>\<open>setTimeout(..., 10)\<close>\<close>
  "handleCompositionEnd data s =
     (let s1 = s\<lparr>isComposing := False\<rparr>;
          s2 = (if data \<noteq> [] \<and> js_trim data \<noteq> []
                then s1\<lparr>timers := timers s1 @ [(data, currentPosition s, typedMap s, isStarted s)]\<rparr>
                else s1)
      in s2\<lparr>compositionBuffer := []\<rparr>)"

definition timeoutFires :: "jsstring \<Rightarrow> int \<Rightarrow> state \<Rightarrow> state" where
  \<comment> \<open>the oldest pending \<^verbatim>\<open>setTimeout\<close> callback of \<^verbatim>\<open>handleCompositionEnd\<close> runs\<close>
  "timeoutFires content now s =
     (case timers s of
        [] \<Rightarrow> s
      | (data, cpos, cmap, cstarted) # rest \<Rightarrow>
          processInputFrom content now data cpos cmap cstarted (s\<lparr>timers := rest\<rparr>))"

datatype inputType = InsertFromPaste | InsertParagraph | InsertOther | NotInsert

definition handleBeforeInput ::
  "jsstring \<Rightarrow> int \<Rightarrow> inputType \<Rightarrow> jsstring option \<Rightarrow> jsstring option \<Rightarrow> state \<Rightarrow> state" where
  \<comment> \<open>\<open>data\<close> is \<^verbatim>\<open>ne.data\<close> (\<open>None\<close> when not a string); \<open>clipboard\<close> is
      \<^verbatim>\<open>ne.clipboardData.getData('text/plain')\<close> (\<open>None\<close> when there is no \<^verbatim>\<open>clipboardData\<close>);
      \<open>NotInsert\<close> is an input type that does not start with \<^verbatim>\<open>insert\<close>\<close>
  "handleBeforeInput content now ity data clipboard s =
     (if isComposing s then s
      else if ity = NotInsert then s
      else if ity = InsertFromPaste \<and> clipboard \<noteq> None then
        (case clipboard of
           None \<Rightarrow> s
         | Some pasted \<Rightarrow> if pasted \<noteq> [] then processInput content now pasted s else s)
      else if ity = InsertParagraph then
        (let srcCh = js_index content (currentPosition s)
         in if srcCh = Some [LF] then processInput content now [LF] s else s)
      else
        (case data of
           None \<Rightarrow> s
         | Some dat \<Rightarrow>
             if dat = [] then s
             else
               let srcCh = js_index content (currentPosition s);
                   d = (if dat = [CR] then [] else dat)
               in if d = [] then s
                  else if (d = [SP] \<or> d = [LF] \<or> d = [TAB]) \<and> srcCh \<noteq> Some d then s
                  else processInput content now d s))"

definition handleInput :: "jsstring \<Rightarrow> int \<Rightarrow> jsstring \<Rightarrow> state \<Rightarrow> state" where
  \<comment> \<open>\<open>text\<close> is \<^verbatim>\<open>target.textContent || ''\<close>\<close>
  "handleInput content now text s =
     (if isComposing s then s
      else if text \<noteq> [] then processInput content now text s
      else s)"

subsection \<open>Metrics\<close>

text \<open>
  The source computes the ratios in IEEE double precision. The model computes them in
  exact rational arithmetic, which gives the same result wherever the quotient is exact,
  in particular for the quotients 0 and 1, and may differ by one from the source where a
  rounded double falls on the other side of a half; \<^verbatim>\<open>Math.round\<close> rounds halves up.
  A division by zero is written out: \<^verbatim>\<open>0 / 0\<close> is \<^verbatim>\<open>NaN\<close> and \<^verbatim>\<open>n / 0\<close> is
  \<^verbatim>\<open>Infinity\<close> for positive \<open>n\<close>, and both pass through \<^verbatim>\<open>* 100\<close> and \<^verbatim>\<open>Math.round\<close>.
\<close>

datatype jsnum = NaN | Infinity | Num int

definition js_round :: "rat \<Rightarrow> int" where
  "js_round x = \<lfloor>x + 1 / 2\<rfloor>"

definition errorCount :: "jsstring \<Rightarrow> typed_map \<Rightarrow> nat" where
  "errorCount content m = length (filter (\<lambda>(idx, ch). Some ch \<noteq> js_index content idx) m)"

definition metricsTick :: "jsstring \<Rightarrow> int \<Rightarrow> state \<Rightarrow> state" where
  \<comment> \<open>one run of the \<^verbatim>\<open>setInterval\<close> callback, which exists only while
      \<^verbatim>\<open>isStarted && startTime > 0\<close>\<close>
  "metricsTick content now s =
     (if isStarted s \<and> startTime s > 0 then
        let timeElapsed = now - startTime s;
            minutes = rat_of_int timeElapsed / 60000;
            s1 = (if minutes > 0
                  then s\<lparr>wpm := js_round (rat_of_nat (length (typedMap s)) / minutes)\<rparr>
                  else s);
            totalTyped = length (typedMap s);
            errCount = errorCount content (typedMap s);
            s2 = s1\<lparr>errors := int errCount\<rparr>
        in if totalTyped > 0
           then s2\<lparr>accuracy :=
                  js_round ((rat_of_nat (totalTyped - errCount) / rat_of_nat totalTyped) * 100)\<rparr>
           else s2
      else s)"

definition progressPercent :: "jsstring \<Rightarrow> state \<Rightarrow> jsnum" where
  \<comment> \<open>\<^verbatim>\<open>Math.round((typedMap.size / textContent.content.length) * 100)\<close>\<close>
  "progressPercent content s =
     (if length content = 0
      then (if length (typedMap s) = 0 then NaN else Infinity)
      else Num (js_round ((rat_of_nat (length (typedMap s)) / rat_of_nat (length content)) * 100)))"

subsection \<open>Runs of events\<close>

datatype event =
    KeyDown key
  | Click click_target
  | BeforeInput inputType "jsstring option" "jsstring option"
  | Input jsstring
  | CompositionStart
  | CompositionUpdate jsstring
  | CompositionEnd jsstring
  | TimeoutFires
  | MetricsTick

fun step :: "jsstring \<Rightarrow> state \<Rightarrow> int \<times> event \<Rightarrow> state" where
  "step content s (now, KeyDown k) = handleKeyDown content k s"
| "step content s (now, Click target) = handleClick target s"
| "step content s (now, BeforeInput ity data clipboard) =
     handleBeforeInput content now ity data clipboard s"
| "step content s (now, Input text) = handleInput content now text s"
| "step content s (now, CompositionStart) = handleCompositionStart s"
| "step content s (now, CompositionUpdate data) = handleCompositionUpdate data s"
| "step content s (now, CompositionEnd data) = handleCompositionEnd data s"
| "step content s (now, TimeoutFires) = timeoutFires content now s"
| "step content s (now, MetricsTick) = metricsTick content now s"

definition run :: "jsstring \<Rightarrow> state \<Rightarrow> (int \<times> event) list \<Rightarrow> state" where
  "run content s evs = foldl (step content) s evs"

fun possible_event :: "jsstring \<Rightarrow> int \<times> event \<Rightarrow> bool" where
  \<comment> \<open>a click can only hit a span that was rendered\<close>
  "possible_event content (now, Click target) = rendered_target content target"
| "possible_event content (now, e) = True"

definition commits :: "jsstring \<Rightarrow> state \<Rightarrow> (int \<times> jsstring) list \<Rightarrow> state" where
  \<comment> \<open>a sequence of calls \<^verbatim>\<open>processInput(text)\<close>, each at its own time\<close>
  "commits content s inputs = foldl (\<lambda>s (now, text). processInput content now text s) s inputs"

subsection \<open>Invariants\<close>

text \<open>
  States reached by forward commits only: the typed map holds entries below the cursor
  only, and no composition is open.
\<close>

definition forward_inv :: "state \<Rightarrow> bool" where
  "forward_inv s =
     (0 \<le> currentPosition s \<and> \<not> isComposing s \<and>
      (\<forall>k \<in> fst ` set (typedMap s). k < currentPosition s))"

text \<open>
  The cursor, and the cursor captured by every pending timer callback, lies in \<open>[0, L]\<close>.
\<close>

definition cursor_inv :: "jsstring \<Rightarrow> state \<Rightarrow> bool" where
  "cursor_inv content s =
     (0 \<le> currentPosition s \<and> currentPosition s \<le> int (length content) \<and>
      (\<forall>(d, p, m, b) \<in> set (timers s). 0 \<le> p \<and> p \<le> int (length content)))"

text \<open>
  The typed map after the first \<open>n\<close> characters of the reference text were typed as they
  are: one entry per position below \<open>n\<close>, in order, each equal to the reference.
\<close>

definition verbatim_inv :: "jsstring \<Rightarrow> typed_map \<Rightarrow> nat \<Rightarrow> bool" where
  "verbatim_inv content m n =
     (map fst m = map int [0..<n] \<and> (\<forall>(i, ch) \<in> set m. js_index content i = Some ch))"

section \<open>Properties\<close>

subsection \<open>Auxiliary facts about the commit loop\<close>

lemma processLoop_single:
  "0 \<le> p \<Longrightarrow> p < int (length content) \<Longrightarrow> ch \<noteq> [] \<Longrightarrow> ch \<noteq> [CR] \<Longrightarrow>
   processLoop content p m [ch] =
     (if (ch = [SP] \<or> ch = [LF] \<or> ch = [TAB]) \<and> js_index content p \<noteq> Some ch
      then (p, m) else (p + 1, AList.update p ch m))"
  by (simp add: Let_def)

lemma code_points_self: "code_points t = [t] \<Longrightarrow> t \<noteq> []"
  by (cases t) auto

lemma update_fresh_append:
  "k \<notin> fst ` set al \<Longrightarrow> AList.update k v al = al @ [(k, v)]"
  by (induction al) auto

lemma delete_fresh_append:
  "k \<notin> fst ` set al \<Longrightarrow> AList.delete k (al @ [(k, v)]) = al"
  by (induction al) (auto simp add: AList.delete_eq)

lemma processLoop_mono:
  "pos \<le> fst (processLoop content pos m cps)"
proof (induction cps arbitrary: pos m)
  case Nil
  then show ?case by simp
next
  case (Cons c cps)
  have "pos \<le> fst (processLoop content pos m cps)" by (rule Cons.IH)
  moreover have "pos + 1 \<le> fst (processLoop content (pos + 1) (AList.update pos c m) cps)"
    by (rule Cons.IH)
  ultimately show ?case by (simp add: Let_def)
qed

lemma processLoop_upper:
  "pos \<le> int (length content) \<Longrightarrow> fst (processLoop content pos m cps) \<le> int (length content)"
proof (induction cps arbitrary: pos m)
  case Nil
  then show ?case by simp
next
  case (Cons c cps)
  show ?case
  proof (cases "pos \<ge> int (length content)")
    case True
    with Cons.prems show ?thesis by simp
  next
    case False
    then have "pos + 1 \<le> int (length content)" by simp
    then have "fst (processLoop content (pos + 1) (AList.update pos c m) cps) \<le> int (length content)"
      by (rule Cons.IH)
    moreover have "fst (processLoop content pos m cps) \<le> int (length content)"
      using Cons.prems by (rule Cons.IH)
    ultimately show ?thesis using False by (simp add: Let_def)
  qed
qed

lemma processLoop_appends:
  "\<forall>k \<in> fst ` set m. k < pos \<Longrightarrow>
   \<exists>ext. snd (processLoop content pos m cps) = m @ ext \<and>
         map fst ext = [pos .. fst (processLoop content pos m cps) - 1]"
proof (induction cps arbitrary: pos m)
  case Nil
  then show ?case by simp
next
  case (Cons c cps)
  from Cons.prems have skip:
    "\<exists>ext. snd (processLoop content pos m cps) = m @ ext \<and>
         map fst ext = [pos .. fst (processLoop content pos m cps) - 1]"
    by (rule Cons.IH)
  from Cons.prems have fresh: "pos \<notin> fst ` set m" by auto
  have "\<forall>k \<in> fst ` set (m @ [(pos, c)]). k < pos + 1"
    using Cons.prems by auto
  then obtain ext where ext:
    "snd (processLoop content (pos + 1) (m @ [(pos, c)]) cps) = (m @ [(pos, c)]) @ ext"
    "map fst ext = [pos + 1 .. fst (processLoop content (pos + 1) (m @ [(pos, c)]) cps) - 1]"
    using Cons.IH [of "m @ [(pos, c)]" "pos + 1"] by blast
  have le: "pos + 1 \<le> fst (processLoop content (pos + 1) (m @ [(pos, c)]) cps)"
    by (rule processLoop_mono)
  have take:
    "\<exists>ext'. snd (processLoop content (pos + 1) (AList.update pos c m) cps) = m @ ext' \<and>
         map fst ext' = [pos .. fst (processLoop content (pos + 1) (AList.update pos c m) cps) - 1]"
  proof (intro exI conjI)
    show "snd (processLoop content (pos + 1) (AList.update pos c m) cps) = m @ ((pos, c) # ext)"
      using ext(1) fresh by (simp add: update_fresh_append)
    show "map fst ((pos, c) # ext) =
        [pos .. fst (processLoop content (pos + 1) (AList.update pos c m) cps) - 1]"
      using ext(2) le fresh by (simp add: update_fresh_append upto_rec1 [of pos])
  qed
  show ?case using skip take by (simp add: Let_def)
qed

lemma js_trim_empty_iff:
  "js_trim d = [] \<longleftrightarrow> (\<forall>u \<in> set d. is_trim_space u)"
proof -
  have "js_trim d = [] \<longleftrightarrow> (\<forall>u \<in> set (dropWhile is_trim_space d). is_trim_space u)"
    by (simp add: js_trim_def)
  also have "\<dots> \<longleftrightarrow> (\<forall>u \<in> set d. is_trim_space u)"
  proof
    assume a: "\<forall>u \<in> set (dropWhile is_trim_space d). is_trim_space u"
    have "dropWhile is_trim_space d = []"
    proof (rule ccontr)
      assume n: "dropWhile is_trim_space d \<noteq> []"
      then have "\<not> is_trim_space (hd (dropWhile is_trim_space d))" by (rule hd_dropWhile)
      moreover have "hd (dropWhile is_trim_space d) \<in> set (dropWhile is_trim_space d)"
        using n by simp
      ultimately show False using a by blast
    qed
    then show "\<forall>u \<in> set d. is_trim_space u" by simp
  next
    assume "\<forall>u \<in> set d. is_trim_space u"
    then show "\<forall>u \<in> set (dropWhile is_trim_space d). is_trim_space u"
      by (blast dest: set_dropWhileD)
  qed
  finally show ?thesis .
qed

subsection \<open>Validation of a single character\<close>

text \<open>
  C1. At a cursor position \<open>p < L\<close>, a commit attempt with a space, newline or tab that
  differs from the reference character at \<open>p\<close> is dropped: the typed map and the cursor
  stay as they are. When it equals the reference character it is committed: the map gets
  the entry at \<open>p\<close> and the cursor moves to \<open>p + 1\<close>.
\<close>

theorem whitespace_commit_guard:
  assumes "0 \<le> currentPosition s" and "currentPosition s < int (length content)"
    and "ch = SP \<or> ch = LF \<or> ch = TAB"
  shows "(js_index content (currentPosition s) \<noteq> Some [ch] \<longrightarrow>
            typedMap (processInput content now [ch] s) = typedMap s \<and>
            currentPosition (processInput content now [ch] s) = currentPosition s) \<and>
         (js_index content (currentPosition s) = Some [ch] \<longrightarrow>
            typedMap (processInput content now [ch] s) =
              AList.update (currentPosition s) [ch] (typedMap s) \<and>
            currentPosition (processInput content now [ch] s) = currentPosition s + 1)"
  using assms
  by (auto simp add: processInput_def processInputFrom_def processLoop_single)

theorem whitespace_commit_guard_witness:
  "typedMap (processInput (js ''a b'') 5 [SP] initial) = [] \<and>
   currentPosition (processInput (js ''a b'') 5 [SP] initial) = 0 \<and>
   typedMap (processInput (js ''a b'') 5 [SP] (initial\<lparr>currentPosition := 1\<rparr>)) = [(1, [SP])] \<and>
   currentPosition (processInput (js ''a b'') 5 [SP] (initial\<lparr>currentPosition := 1\<rparr>)) = 2"
  using whitespace_commit_guard [of initial "js ''a b''" SP 5]
    whitespace_commit_guard [of "initial\<lparr>currentPosition := 1\<rparr>" "js ''a b''" SP 5]
  by (simp add: initial_def js_def js_index_def)

text \<open>
  C2, as stated, fails: with the reference \<open>a b\<close> and the cursor at position 1, where the
  reference holds a space, committing \<open>x\<close> changes both the typed map and the cursor.
\<close>

theorem reference_space_guard_counterexample:
  "typedMap (processInput (js ''a b'') 9 (js ''x'')
              (initial\<lparr>currentPosition := 1, typedMap := [(0, js ''a'')]\<rparr>))
     \<noteq> typedMap (initial\<lparr>currentPosition := 1, typedMap := [(0, js ''a'')]\<rparr>) \<and>
   currentPosition (processInput (js ''a b'') 9 (js ''x'')
              (initial\<lparr>currentPosition := 1, typedMap := [(0, js ''a'')]\<rparr>))
     \<noteq> currentPosition (initial\<lparr>currentPosition := 1, typedMap := [(0, js ''a'')]\<rparr>)"
  by (simp add: initial_def js_def processInput_def processInputFrom_def js_index_def Let_def)

text \<open>
  C2, amended. With the reference \<open>a b\<close> and the cursor at position 1, committing \<open>x\<close>
  records the mismatch: the typed map gets the entry \<open>1 \<mapsto> x\<close> and the cursor moves to 2.
  The guard looks at the incoming character, not at the reference.
\<close>

theorem reference_space_records_mismatch:
  "typedMap (processInput (js ''a b'') now (js ''x'') (s\<lparr>currentPosition := 1\<rparr>))
     = AList.update 1 (js ''x'') (typedMap s) \<and>
   currentPosition (processInput (js ''a b'') now (js ''x'') (s\<lparr>currentPosition := 1\<rparr>)) = 2"
  by (simp add: js_def processInput_def processInputFrom_def js_index_def Let_def)

text \<open>
  C3. At a cursor position \<open>p < L\<close>, committing a character that is not whitespace (not a
  space, newline, tab or carriage return) succeeds whether or not it matches the
  reference: the typed map entry at \<open>p\<close> becomes that character and the cursor moves to
  \<open>p + 1\<close>. A character is one element of the string iteration, so one code unit or one
  surrogate pair.
\<close>

theorem non_whitespace_always_committed:
  assumes "0 \<le> currentPosition s" and "currentPosition s < int (length content)"
    and "code_points t = [t]"
    and "t \<noteq> [SP]" and "t \<noteq> [LF]" and "t \<noteq> [TAB]" and "t \<noteq> [CR]"
  shows "typedMap (processInput content now t s) =
           AList.update (currentPosition s) t (typedMap s) \<and>
         currentPosition (processInput content now t s) = currentPosition s + 1"
  using assms code_points_self [of t]
  by (simp add: processInput_def processInputFrom_def processLoop_single)

theorem non_whitespace_always_committed_witness:
  "typedMap (processInput (js ''cat'') 7 (js ''o'')
              (initial\<lparr>currentPosition := 1, typedMap := [(0, js ''c'')]\<rparr>))
     = [(0, js ''c''), (1, js ''o'')] \<and>
   currentPosition (processInput (js ''cat'') 7 (js ''o'')
              (initial\<lparr>currentPosition := 1, typedMap := [(0, js ''c'')]\<rparr>)) = 2"
  using non_whitespace_always_committed
    [of "initial\<lparr>currentPosition := 1, typedMap := [(0, js ''c'')]\<rparr>" "js ''cat''" "js ''o''" 7]
  by (simp add: initial_def js_def)

subsection \<open>The session clock\<close>




subsection \<open>Composition\<close>

text \<open>
  C5. While a composition is open, the handlers of direct input, paste and keyboard
  edits (\<^verbatim>\<open>beforeinput\<close>, \<^verbatim>\<open>input\<close>, \<^verbatim>\<open>keydown\<close>) return the state as it is, and a
  composition update touches neither the typed map, nor the cursor, nor the pending
  calls. Composition-end itself leaves map and cursor alone; the only thing it forwards
  is the finalized result \<open>d\<close> (when it is not blank), as one deferred call of
  \<^verbatim>\<open>processInput\<close>. When that call runs, the outcome is that of pasting \<open>d\<close>: both go
  through \<^verbatim>\<open>processInput\<close> and its per-character loop. (\<^verbatim>\<open>handleClick\<close>, a seek and
  not an input, has no such gate.)
\<close>

theorem composition_gates_input:
  assumes "isComposing s"
  shows "handleBeforeInput content now ity data clipboard s = s \<and>
         handleInput content now text s = s \<and>
         handleKeyDown content k s = s \<and>
         typedMap (handleCompositionUpdate d s) = typedMap s \<and>
         currentPosition (handleCompositionUpdate d s) = currentPosition s \<and>
         timers (handleCompositionUpdate d s) = timers s \<and>
         isComposing (handleCompositionUpdate d s) \<and>
         typedMap (handleCompositionEnd d s) = typedMap s \<and>
         currentPosition (handleCompositionEnd d s) = currentPosition s \<and>
         timers (handleCompositionEnd d s) =
           timers s @ (if d \<noteq> [] \<and> js_trim d \<noteq> []
                       then [(d, currentPosition s, typedMap s, isStarted s)] else []) \<and>
         (d \<noteq> [] \<and> js_trim d \<noteq> [] \<and> timers s = [] \<longrightarrow>
            timeoutFires content now (handleCompositionEnd d s) =
              handleBeforeInput content now InsertFromPaste data (Some d)
                (s\<lparr>isComposing := False, compositionBuffer := []\<rparr>))"
  using assms
  by (simp add: handleBeforeInput_def handleInput_def handleKeyDown_def
      handleCompositionUpdate_def handleCompositionEnd_def timeoutFires_def
      processInput_def processInputFrom_def Let_def split: prod.splits)

theorem composition_gates_input_witness:
  "handleKeyDown (js ''ab'') Backspace (run (js ''ab'') initial [(1, Input (js ''a'')), (2, CompositionStart)])
     = run (js ''ab'') initial [(1, Input (js ''a'')), (2, CompositionStart)] \<and>
   run (js ''ab'') initial [(1, CompositionStart), (2, Input (js ''a'')),
       (3, BeforeInput InsertFromPaste None (Some (js ''ab''))), (4, KeyDown End)]
     = run (js ''ab'') initial [(1, CompositionStart)] \<and>
   run (js ''ab'') initial [(1, CompositionStart), (2, CompositionUpdate (js ''x'')),
       (3, CompositionEnd (js ''ab'')), (13, TimeoutFires)]
     = run (js ''ab'') initial [(13, BeforeInput InsertFromPaste None (Some (js ''ab'')))] \<and>
   typedMap (run (js ''ab'') initial [(1, CompositionStart), (2, CompositionUpdate (js ''x'')),
       (3, CompositionEnd (js ''ab'')), (13, TimeoutFires)]) = [(0, js ''a''), (1, js ''b'')]"
  using composition_gates_input [of "handleCompositionStart initial" "js ''ab''" 13 InsertFromPaste
      None "Some (js ''ab'')" "js ''a''" End "js ''ab''"]
    composition_gates_input [of "handleCompositionUpdate (js ''x'') (handleCompositionStart initial)"
      "js ''ab''" 13 InsertFromPaste None "Some (js ''ab'')" "js ''a''" End "js ''ab''"]
  by (simp add: run_def js_def initial_def handleCompositionStart_def handleCompositionUpdate_def
      handleCompositionEnd_def handleInput_def handleKeyDown_def handleBeforeInput_def timeoutFires_def
      processInput_def processInputFrom_def js_index_def js_trim_def is_trim_space_def
      is_high_surrogate_def Let_def)

text \<open>
  C10. A finalized composition result that consists of whitespace only (every code unit
  is removed by \<^verbatim>\<open>trim\<close>) is discarded by composition-end: no call of \<^verbatim>\<open>processInput\<close>
  is scheduled, and the typed map, the cursor and the session clock stay as they are,
  also when the whitespace equals the reference at the cursor, where pasting the same
  text commits it.
\<close>

theorem whitespace_only_composition_discarded:
  assumes "\<forall>u \<in> set d. is_trim_space u"
  shows "handleCompositionEnd d s = s\<lparr>isComposing := False, compositionBuffer := []\<rparr> \<and>
         timers (handleCompositionEnd d s) = timers s \<and>
         typedMap (handleCompositionEnd d s) = typedMap s \<and>
         currentPosition (handleCompositionEnd d s) = currentPosition s \<and>
         isStarted (handleCompositionEnd d s) = isStarted s \<and>
         startTime (handleCompositionEnd d s) = startTime s"
proof -
  have "js_trim d = []" using assms by (simp add: js_trim_empty_iff)
  then show ?thesis by (simp add: handleCompositionEnd_def)
qed

theorem whitespace_only_composition_discarded_witness:
  "run (js '' '') initial [(1, CompositionStart), (2, CompositionEnd (js '' '')), (12, TimeoutFires)]
     = initial \<and>
   typedMap (run (js '' '') initial [(1, BeforeInput InsertFromPaste None (Some (js '' '')))])
     = [(0, js '' '')]"
  using whitespace_only_composition_discarded [of "js '' ''" "handleCompositionStart initial"]
  by (simp add: run_def js_def is_trim_space_def handleCompositionStart_def initial_def
      timeoutFires_def handleBeforeInput_def processInput_def processInputFrom_def js_index_def)

subsection \<open>Backspace\<close>

lemma processLoop_keys_below:
  assumes "\<forall>k \<in> fst ` set m. k < pos"
  shows "\<forall>k \<in> fst ` set (snd (processLoop content pos m cps)).
           k < fst (processLoop content pos m cps)"
proof -
  obtain ext where ext: "snd (processLoop content pos m cps) = m @ ext"
    "map fst ext = [pos .. fst (processLoop content pos m cps) - 1]"
    using processLoop_appends [OF assms] by blast
  have le: "pos \<le> fst (processLoop content pos m cps)" by (rule processLoop_mono)
  have "fst ` set ext = set (map fst ext)" by simp
  also have "\<dots> = {pos .. fst (processLoop content pos m cps) - 1}"
    by (simp only: ext(2) set_upto)
  finally have "\<forall>k \<in> fst ` set ext. k < fst (processLoop content pos m cps)" by auto
  moreover have "\<forall>k \<in> fst ` set m. k < fst (processLoop content pos m cps)"
    using assms le by auto
  ultimately show ?thesis by (auto simp add: ext(1) image_Un)
qed

lemma processInput_forward_inv:
  assumes "forward_inv s"
  shows "forward_inv (processInput content now text s)"
proof (cases "text = []")
  case True
  then show ?thesis using assms by (simp add: processInput_def processInputFrom_def)
next
  case False
  obtain pos nxt where r:
    "processLoop content (currentPosition s) (typedMap s) (code_points text) = (pos, nxt)"
    by (cases "processLoop content (currentPosition s) (typedMap s) (code_points text)")
  have below: "\<forall>k \<in> fst ` set (typedMap s). k < currentPosition s"
    using assms by (simp add: forward_inv_def)
  have "currentPosition s \<le> pos"
    using processLoop_mono [of "currentPosition s" content "typedMap s" "code_points text"] r
    by simp
  moreover have "\<forall>k \<in> fst ` set nxt. k < pos"
    using processLoop_keys_below [OF below, of content "code_points text"] r by simp
  ultimately show ?thesis
    using assms False r by (simp add: forward_inv_def processInput_def processInputFrom_def)
qed

lemma commits_forward_inv:
  "forward_inv s \<Longrightarrow> forward_inv (commits content s inputs)"
proof (induction inputs arbitrary: s)
  case Nil
  then show ?case by (simp add: commits_def)
next
  case (Cons a inputs)
  obtain now t where a: "a = (now, t)" by (cases a)
  have "forward_inv (processInput content now t s)"
    using Cons.prems by (rule processInput_forward_inv)
  then have "forward_inv (commits content (processInput content now t s) inputs)"
    by (rule Cons.IH)
  then show ?case by (simp add: commits_def a)
qed

lemma forward_inv_initial: "forward_inv initial"
  by (simp add: forward_inv_def initial_def)

text \<open>
  C6. In a state reached from the initial state by forward commits only, a commit that
  advances the cursor by one adds exactly one entry, at the old cursor position, and a
  backspace right after it gives back the old cursor and the old typed map. At cursor
  position 0 backspace changes nothing.
\<close>

theorem backspace_inverts_commit:
  assumes reached: "s = commits content initial inputs"
    and commit: "s' = processInput content now text s"
    and success: "currentPosition s' = currentPosition s + 1"
  shows "(\<exists>ch. typedMap s' = typedMap s @ [(currentPosition s, ch)]) \<and>
         currentPosition (handleKeyDown content Backspace s') = currentPosition s \<and>
         typedMap (handleKeyDown content Backspace s') = typedMap s \<and>
         (currentPosition s0 = 0 \<longrightarrow> handleKeyDown content Backspace s0 = s0)"
proof -
  have inv: "forward_inv s"
    unfolding reached by (rule commits_forward_inv [OF forward_inv_initial])
  then have below: "\<forall>k \<in> fst ` set (typedMap s). k < currentPosition s"
    and nonneg: "0 \<le> currentPosition s" and idle: "\<not> isComposing s"
    by (simp_all add: forward_inv_def)
  have ne: "text \<noteq> []"
    using commit success by (auto simp add: processInput_def processInputFrom_def)
  obtain pos nxt where r:
    "processLoop content (currentPosition s) (typedMap s) (code_points text) = (pos, nxt)"
    by (cases "processLoop content (currentPosition s) (typedMap s) (code_points text)")
  have s': "currentPosition s' = pos" "typedMap s' = nxt" "isComposing s' = isComposing s"
    using commit ne r by (simp_all add: processInput_def processInputFrom_def)
  obtain ext where ext: "nxt = typedMap s @ ext" "map fst ext = [currentPosition s .. pos - 1]"
    using processLoop_appends [OF below, of content "code_points text"] r by auto
  have "pos - 1 = currentPosition s"
    using s'(1) success by simp
  then have "map fst ext = [currentPosition s]"
    using ext(2) by (simp add: upto.simps)
  then obtain ch where ch: "ext = [(currentPosition s, ch)]"
    by (cases ext) auto
  have fresh: "currentPosition s \<notin> fst ` set (typedMap s)"
    using below by auto
  have added: "typedMap s' = typedMap s @ [(currentPosition s, ch)]"
    using s'(2) ext(1) ch by simp
  have undo: "handleKeyDown content Backspace s' =
      s'\<lparr>typedMap := AList.delete (currentPosition s) (typedMap s'), currentPosition := currentPosition s\<rparr>"
    using idle nonneg s'(3) success by (simp add: handleKeyDown_def Let_def)
  have "typedMap (handleKeyDown content Backspace s') = typedMap s"
    using fresh by (simp add: undo added delete_fresh_append)
  moreover have "currentPosition (handleKeyDown content Backspace s') = currentPosition s"
    by (simp add: undo)
  moreover have "currentPosition s0 = 0 \<longrightarrow> handleKeyDown content Backspace s0 = s0"
    by (simp add: handleKeyDown_def)
  ultimately show ?thesis using added by blast
qed

theorem backspace_inverts_commit_witness:
  "typedMap (processInput (js ''hi there'') 4 (js ''x'')
       (commits (js ''hi there'') initial [(1, js ''h''), (2, js ''i''), (3, js '' '')]))
     = [(0, js ''h''), (1, js ''i''), (2, js '' ''), (3, js ''x'')] \<and>
   currentPosition (handleKeyDown (js ''hi there'') Backspace
     (processInput (js ''hi there'') 4 (js ''x'')
       (commits (js ''hi there'') initial [(1, js ''h''), (2, js ''i''), (3, js '' '')]))) = 3 \<and>
   typedMap (handleKeyDown (js ''hi there'') Backspace
     (processInput (js ''hi there'') 4 (js ''x'')
       (commits (js ''hi there'') initial [(1, js ''h''), (2, js ''i''), (3, js '' '')])))
     = [(0, js ''h''), (1, js ''i''), (2, js '' '')] \<and>
   handleKeyDown (js ''hi there'') Backspace initial = initial"
  using backspace_inverts_commit
    [of "commits (js ''hi there'') initial [(1, js ''h''), (2, js ''i''), (3, js '' '')]"
        "js ''hi there''" "[(1, js ''h''), (2, js ''i''), (3, js '' '')]"
        "processInput (js ''hi there'') 4 (js ''x'')
           (commits (js ''hi there'') initial [(1, js ''h''), (2, js ''i''), (3, js '' '')])"
        4 "js ''x''" initial]
  by (simp add: commits_def processInput_def processInputFrom_def initial_def js_def
      js_index_def Let_def)

subsection \<open>The cursor stays within the text\<close>

lemma processInputFrom_cursor_inv:
  assumes "cursor_inv content s" and "0 \<le> cpos" and "cpos \<le> int (length content)"
  shows "cursor_inv content (processInputFrom content now t cpos cmap cstarted s)"
proof (cases "t = []")
  case True
  then show ?thesis using assms(1) by (simp add: processInputFrom_def)
next
  case False
  obtain pos nxt where r: "processLoop content cpos cmap (code_points t) = (pos, nxt)"
    by (cases "processLoop content cpos cmap (code_points t)")
  have "cpos \<le> pos"
    using processLoop_mono [of cpos content cmap "code_points t"] r by simp
  moreover have "pos \<le> int (length content)"
    using processLoop_upper [OF assms(3), of cmap "code_points t"] r by simp
  ultimately show ?thesis
    using assms(1,2) False r by (simp add: processInputFrom_def cursor_inv_def)
qed

lemma processInput_cursor_inv:
  "cursor_inv content s \<Longrightarrow> cursor_inv content (processInput content now t s)"
  unfolding processInput_def
  by (rule processInputFrom_cursor_inv) (simp_all add: cursor_inv_def)

lemma handleKeyDown_cursor_inv:
  "cursor_inv content s \<Longrightarrow> cursor_inv content (handleKeyDown content k s)"
  by (cases k) (simp_all add: handleKeyDown_def cursor_inv_def Let_def)

lemma handleClick_cursor_inv:
  "cursor_inv content s \<Longrightarrow> rendered_target content target \<Longrightarrow>
   cursor_inv content (handleClick target s)"
  by (cases target) (simp_all add: handleClick_def rendered_target_def cursor_inv_def)

lemma handleBeforeInput_cursor_inv:
  "cursor_inv content s \<Longrightarrow>
   cursor_inv content (handleBeforeInput content now ity data clipboard s)"
  by (simp add: handleBeforeInput_def processInput_cursor_inv Let_def split: option.splits)

lemma handleInput_cursor_inv:
  "cursor_inv content s \<Longrightarrow> cursor_inv content (handleInput content now t s)"
  by (simp add: handleInput_def processInput_cursor_inv)

lemma handleComposition_cursor_inv:
  assumes "cursor_inv content s"
  shows "cursor_inv content (handleCompositionStart s)"
    and "cursor_inv content (handleCompositionUpdate d s)"
    and "cursor_inv content (handleCompositionEnd d s)"
  using assms
  by (simp_all add: handleCompositionStart_def handleCompositionUpdate_def
      handleCompositionEnd_def cursor_inv_def Let_def)

lemma timeoutFires_cursor_inv:
  assumes "cursor_inv content s"
  shows "cursor_inv content (timeoutFires content now s)"
proof (cases "timers s")
  case Nil
  then show ?thesis using assms by (simp add: timeoutFires_def)
next
  case (Cons a rest)
  obtain d p m b where a: "a = (d, p, m, b)" by (cases a)
  have "0 \<le> p \<and> p \<le> int (length content)"
    using assms Cons a by (simp add: cursor_inv_def)
  moreover have "cursor_inv content (s\<lparr>timers := rest\<rparr>)"
    using assms Cons by (simp add: cursor_inv_def)
  ultimately have "cursor_inv content (processInputFrom content now d p m b (s\<lparr>timers := rest\<rparr>))"
    by (simp add: processInputFrom_cursor_inv)
  then show ?thesis by (simp add: timeoutFires_def Cons a)
qed

lemma metricsTick_cursor_inv:
  "cursor_inv content s \<Longrightarrow> cursor_inv content (metricsTick content now s)"
  by (simp add: metricsTick_def cursor_inv_def Let_def)

lemma step_cursor_inv:
  assumes "cursor_inv content s" and "possible_event content e"
  shows "cursor_inv content (step content s e)"
proof -
  obtain now ev where e: "e = (now, ev)" by (cases e)
  show ?thesis
    using assms unfolding e
    by (cases ev)
      (simp_all add: handleKeyDown_cursor_inv handleClick_cursor_inv
        handleBeforeInput_cursor_inv handleInput_cursor_inv handleComposition_cursor_inv
        timeoutFires_cursor_inv metricsTick_cursor_inv)
qed

lemma run_cursor_inv:
  "cursor_inv content s \<Longrightarrow> \<forall>e \<in> set evs. possible_event content e \<Longrightarrow>
   cursor_inv content (run content s evs)"
proof (induction evs arbitrary: s)
  case Nil
  then show ?case by (simp add: run_def)
next
  case (Cons e evs)
  have "cursor_inv content (step content s e)"
    using Cons.prems by (simp add: step_cursor_inv)
  then have "cursor_inv content (run content (step content s e) evs)"
    using Cons.prems(2) by (simp add: Cons.IH)
  then show ?case by (simp add: run_def)
qed

text \<open>
  C7. Starting from the initial state (cursor 0), after every sequence of events (arrow
  keys, Home, End, clicks on rendered characters, commits through \<^verbatim>\<open>beforeinput\<close>,
  \<^verbatim>\<open>input\<close> and composition, backspace, delete, timer callbacks and metric ticks) the
  cursor lies in \<open>[0, L]\<close>. \<^verbatim>\<open>handleClick\<close> stores the clicked index as it is, so the
  bound uses that a click can only hit a rendered span, whose index is below \<open>L\<close>.
\<close>

theorem cursor_bounded:
  assumes "\<forall>e \<in> set evs. possible_event content e"
  shows "0 \<le> currentPosition (run content initial evs) \<and>
         currentPosition (run content initial evs) \<le> int (length content)"
proof -
  have "cursor_inv content initial" by (simp add: cursor_inv_def initial_def)
  then have "cursor_inv content (run content initial evs)"
    using assms by (rule run_cursor_inv)
  then show ?thesis by (simp add: cursor_inv_def)
qed

theorem cursor_bounded_witness:
  "0 \<le> currentPosition (run (js ''ab'') initial
      [(1, KeyDown ArrowLeft), (2, Input (js ''abc'')), (3, KeyDown ArrowRight),
       (4, Click (RemainingChar 1)), (5, KeyDown Delete), (6, KeyDown End),
       (7, KeyDown Backspace), (8, KeyDown Home), (9, KeyDown Backspace)]) \<and>
   currentPosition (run (js ''ab'') initial
      [(1, KeyDown ArrowLeft), (2, Input (js ''abc'')), (3, KeyDown ArrowRight),
       (4, Click (RemainingChar 1)), (5, KeyDown Delete), (6, KeyDown End),
       (7, KeyDown Backspace), (8, KeyDown Home), (9, KeyDown Backspace)]) \<le> 2 \<and>
   currentPosition (run (js ''ab'') initial
      [(1, KeyDown ArrowLeft), (2, Input (js ''abc'')), (3, KeyDown ArrowRight)]) = 2"
  using cursor_bounded [of
      "[(1, KeyDown ArrowLeft), (2, Input (js ''abc'')), (3, KeyDown ArrowRight),
       (4, Click (RemainingChar 1)), (5, KeyDown Delete), (6, KeyDown End),
       (7, KeyDown Backspace), (8, KeyDown Home), (9, KeyDown Backspace)]" "js ''ab''"]
  by (simp add: rendered_target_def js_def run_def initial_def handleKeyDown_def handleInput_def
      handleClick_def processInput_def processInputFrom_def js_index_def is_high_surrogate_def Let_def)

subsection \<open>Derived metrics\<close>

lemma floor_rat_numeral_div:
  "\<lfloor>(numeral a :: rat) / numeral b\<rfloor> = numeral a div numeral b"
  using floor_divide_of_int_eq [of "numeral a" "numeral b", where ?'a = rat] by simp

lemma floor_rat_one_div:
  "\<lfloor>(1 :: rat) / numeral b\<rfloor> = 1 div numeral b"
  using floor_divide_of_int_eq [of 1 "numeral b", where ?'a = rat] by simp

lemma js_round_100: "js_round 100 = 100"
  by (simp add: js_round_def floor_rat_numeral_div)
lemma processInput_keeps_metrics:
  "wpm (processInput content now t s) = wpm s \<and>
   accuracy (processInput content now t s) = accuracy s \<and>
   errors (processInput content now t s) = errors s"
  by (simp add: processInput_def processInputFrom_def Let_def split: prod.splits)

lemma commits_keeps_metrics:
  "wpm (commits content s inputs) = wpm s \<and>
   accuracy (commits content s inputs) = accuracy s \<and>
   errors (commits content s inputs) = errors s"
proof (induction inputs arbitrary: s)
  case Nil
  show ?case by (simp add: commits_def)
next
  case (Cons a inputs)
  obtain now t where a: "a = (now, t)" by (cases a)
  have "commits content s (a # inputs) = commits content (processInput content now t s) inputs"
    by (simp add: commits_def a)
  then show ?case
    using Cons.IH [of "processInput content now t s"] processInput_keeps_metrics [of content now t s]
    by simp
qed

lemma verbatim_step:
  assumes n: "n < length content" and cr: "content ! n \<noteq> CR"
    and inv: "verbatim_inv content (typedMap s) n" and pos: "currentPosition s = int n"
  shows "currentPosition (processInput content now [content ! n] s) = int (Suc n) \<and>
         verbatim_inv content (typedMap (processInput content now [content ! n] s)) (Suc n)"
proof -
  have fresh: "int n \<notin> fst ` set (typedMap s)"
  proof -
    have "fst ` set (typedMap s) = set (map fst (typedMap s))" by simp
    also have "\<dots> = int ` {0..<n}" using inv by (simp add: verbatim_inv_def)
    finally show ?thesis by auto
  qed
  have src: "js_index content (int n) = Some [content ! n]"
    using n by (simp add: js_index_def)
  have loop: "processLoop content (int n) (typedMap s) [[content ! n]] =
      (int n + 1, typedMap s @ [(int n, [content ! n])])"
    using n cr src fresh by (simp add: processLoop_single update_fresh_append)
  have res: "currentPosition (processInput content now [content ! n] s) = int n + 1"
    "typedMap (processInput content now [content ! n] s) = typedMap s @ [(int n, [content ! n])]"
    using loop pos by (simp_all add: processInput_def processInputFrom_def)
  have "verbatim_inv content (typedMap s @ [(int n, [content ! n])]) (Suc n)"
    using inv src by (simp add: verbatim_inv_def)
  then show ?thesis using res by simp
qed

lemma verbatim_commits:
  assumes "CR \<notin> set content"
  shows "n \<le> length content \<Longrightarrow> map snd inputs = map (\<lambda>u. [u]) (drop n content) \<Longrightarrow>
         verbatim_inv content (typedMap s) n \<Longrightarrow> currentPosition s = int n \<Longrightarrow>
         currentPosition (commits content s inputs) = int (length content) \<and>
         verbatim_inv content (typedMap (commits content s inputs)) (length content)"
proof (induction inputs arbitrary: n s)
  case Nil
  then have "n = length content" by simp
  with Nil show ?case by (simp add: commits_def)
next
  case (Cons a inputs)
  obtain now t where a: "a = (now, t)" by (cases a)
  from Cons.prems(2) have ne: "drop n content \<noteq> []" by auto
  then have n: "n < length content" by simp
  then have d: "drop n content = content ! n # drop (Suc n) content"
    by (simp add: Cons_nth_drop_Suc)
  from Cons.prems(2) have t: "t = [content ! n]"
    and rest: "map snd inputs = map (\<lambda>u. [u]) (drop (Suc n) content)"
    by (simp_all add: a d)
  have cr: "content ! n \<noteq> CR"
    using assms n by (metis nth_mem)
  have st: "currentPosition (processInput content now t s) = int (Suc n)"
    "verbatim_inv content (typedMap (processInput content now t s)) (Suc n)"
    using verbatim_step [OF n cr Cons.prems(3) Cons.prems(4), of now] by (simp_all add: t)
  have "Suc n \<le> length content" using n by simp
  then have "currentPosition (commits content (processInput content now t s) inputs) =
       int (length content) \<and>
     verbatim_inv content (typedMap (commits content (processInput content now t s) inputs))
       (length content)"
    using rest st by (simp add: Cons.IH)
  then show ?case by (simp add: commits_def a)
qed

lemma verbatim_inv_length: "verbatim_inv content m n \<Longrightarrow> length m = n"
proof -
  assume "verbatim_inv content m n"
  then have "map fst m = map int [0..<n]" by (simp add: verbatim_inv_def)
  then have "length (map fst m) = length (map int [0..<n])" by simp
  then show ?thesis by simp
qed

lemma verbatim_inv_errorCount: "verbatim_inv content m n \<Longrightarrow> errorCount content m = 0"
  by (auto simp add: verbatim_inv_def errorCount_def filter_empty_conv)

lemma full_map_metrics:
  assumes "content \<noteq> []" and "length (typedMap s) = length content"
    and "errorCount content (typedMap s) = 0"
    and "errors s = 0" and "accuracy s = 100"
  shows "errors (metricsTick content t s) = 0 \<and> accuracy (metricsTick content t s) = 100 \<and>
         progressPercent content s = Num 100 \<and>
         progressPercent content (metricsTick content t s) = Num 100"
proof -
  have L: "rat_of_nat (length content) \<noteq> 0" using assms(1) by simp
  have m: "typedMap (metricsTick content t s) = typedMap s"
    by (simp add: metricsTick_def Let_def)
  have "progressPercent content s = Num 100"
    using assms(1,2) L by (simp add: progressPercent_def js_round_100)
  moreover have "progressPercent content (metricsTick content t s) = Num 100"
    using assms(1,2) L by (simp add: progressPercent_def m js_round_100)
  moreover have "errors (metricsTick content t s) = 0"
    using assms(3,4) by (simp add: metricsTick_def Let_def)
  moreover have "accuracy (metricsTick content t s) = 100"
    using assms(1,2,3,5) L by (simp add: metricsTick_def Let_def js_round_100)
  ultimately show ?thesis by simp
qed

text \<open>
  C8, as stated, fails for three kinds of reference text. For the empty text the progress
  is \<^verbatim>\<open>NaN\<close>. For a text with a carriage return (\<open>a\<close>, CR, \<open>b\<close>) the typed CR is
  dropped and \<open>b\<close> lands on the position of the CR: one error, accuracy 50, progress 67.
  For a text holding a surrogate pair the pair is committed as one character at the
  position of its first code unit: one error, progress 50.
\<close>

theorem verbatim_commit_counterexample:
  "progressPercent [] (commits [] initial []) \<noteq> Num 100 \<and>
   errors (metricsTick [0x61, CR, 0x62] 4
      (commits [0x61, CR, 0x62] initial [(1, [0x61]), (2, [CR]), (3, [0x62])])) \<noteq> 0 \<and>
   accuracy (metricsTick [0x61, CR, 0x62] 4
      (commits [0x61, CR, 0x62] initial [(1, [0x61]), (2, [CR]), (3, [0x62])])) \<noteq> 100 \<and>
   progressPercent [0x61, CR, 0x62]
      (commits [0x61, CR, 0x62] initial [(1, [0x61]), (2, [CR]), (3, [0x62])]) \<noteq> Num 100 \<and>
   map snd [(1 :: int, [0xD83D, 0xDE00 :: code_unit])] = code_points [0xD83D, 0xDE00] \<and>
   errors (metricsTick [0xD83D, 0xDE00] 2
      (commits [0xD83D, 0xDE00] initial [(1, [0xD83D, 0xDE00])])) \<noteq> 0 \<and>
   progressPercent [0xD83D, 0xDE00]
      (commits [0xD83D, 0xDE00] initial [(1, [0xD83D, 0xDE00])]) \<noteq> Num 100"
  by (simp add: commits_def initial_def processInput_def processInputFrom_def js_index_def
      metricsTick_def errorCount_def progressPercent_def js_round_def floor_rat_numeral_div
      is_high_surrogate_def is_low_surrogate_def Let_def)

text \<open>
  C8, amended. For every non-empty reference text without carriage return and without
  surrogate pair, committing the text character by character from the initial state
  leaves the cursor at \<open>L\<close> and gives \<open>errorCount = 0\<close>, \<open>accuracyPercent = 100\<close> and
  \<open>progressPercent = 100\<close>, before and after a metrics tick at any time.
\<close>

theorem verbatim_commit_metrics:
  assumes "content \<noteq> []" and "CR \<notin> set content"
    and "code_points content = map (\<lambda>u. [u]) content"
    and "map snd inputs = code_points content"
  shows "currentPosition (commits content initial inputs) = int (length content) \<and>
         errorCount content (typedMap (commits content initial inputs)) = 0 \<and>
         errors (commits content initial inputs) = 0 \<and>
         accuracy (commits content initial inputs) = 100 \<and>
         progressPercent content (commits content initial inputs) = Num 100 \<and>
         errors (metricsTick content t (commits content initial inputs)) = 0 \<and>
         accuracy (metricsTick content t (commits content initial inputs)) = 100 \<and>
         progressPercent content (metricsTick content t (commits content initial inputs)) = Num 100"
proof -
  let ?s = "commits content initial inputs"
  have "verbatim_inv content (typedMap initial) 0" "currentPosition initial = int 0"
    by (simp_all add: verbatim_inv_def initial_def)
  moreover have "map snd inputs = map (\<lambda>u. [u]) (drop 0 content)"
    using assms(3,4) by simp
  ultimately have fin: "currentPosition ?s = int (length content)"
    "verbatim_inv content (typedMap ?s) (length content)"
    using verbatim_commits [OF assms(2), of 0 inputs initial] by simp_all
  have len: "length (typedMap ?s) = length content"
    using fin(2) by (rule verbatim_inv_length)
  have ec: "errorCount content (typedMap ?s) = 0"
    using fin(2) by (rule verbatim_inv_errorCount)
  have keep: "errors ?s = 0" "accuracy ?s = 100"
    using commits_keeps_metrics [of content initial inputs] by (simp_all add: initial_def)
  show ?thesis
    using full_map_metrics [OF assms(1) len ec keep, of t] fin(1) ec keep by simp
qed

theorem verbatim_commit_metrics_witness:
  "currentPosition (commits (js ''hi'') initial [(1, js ''h''), (2, js ''i'')]) = 2 \<and>
   errors (metricsTick (js ''hi'') 3 (commits (js ''hi'') initial [(1, js ''h''), (2, js ''i'')])) = 0 \<and>
   accuracy (metricsTick (js ''hi'') 3 (commits (js ''hi'') initial [(1, js ''h''), (2, js ''i'')])) = 100 \<and>
   progressPercent (js ''hi'') (metricsTick (js ''hi'') 3 (commits (js ''hi'') initial [(1, js ''h''), (2, js ''i'')])) = Num 100"
  using verbatim_commit_metrics [of "js ''hi''" "[(1, js ''h''), (2, js ''i'')]" 3]
  by (simp add: js_def is_high_surrogate_def)

text \<open>
  C9. With a zero-length reference text the progress expression divides zero by zero:
  in the initial state, and after any input, \<open>progressPercent\<close> is \<^verbatim>\<open>NaN\<close>, not 0, while
  \<open>wpm\<close>, \<open>accuracy\<close> and \<open>errors\<close> hold their defaults 0, 100 and 0. With a typed map
  that was emptied again (a wrong character, a tick, backspace, a tick) the tick skips the
  accuracy and the value of the earlier tick, 0, stays in place of the default 100.
\<close>

theorem zero_input_defaults_violated:
  "wpm initial = 0 \<and> accuracy initial = 100 \<and> errors initial = 0 \<and>
   progressPercent [] initial = NaN \<and>
   progressPercent [] (run [] initial [(5, Input (js ''x'')), (125, MetricsTick)]) = NaN \<and>
   typedMap (run (js ''ab'') initial
     [(5, Input (js ''x'')), (125, MetricsTick), (130, KeyDown Backspace), (250, MetricsTick)]) = [] \<and>
   accuracy (run (js ''ab'') initial
     [(5, Input (js ''x'')), (125, MetricsTick), (130, KeyDown Backspace), (250, MetricsTick)]) = 0"
  by (simp add: initial_def progressPercent_def run_def handleInput_def handleKeyDown_def
      processInput_def processInputFrom_def metricsTick_def errorCount_def js_def js_index_def
      js_round_def floor_rat_numeral_div floor_rat_one_div Let_def)

end
